theory Spec2Isabelle
  imports Main "HOL-Library.Word"
begin

section \<open>Python string primitives used by the scripts\<close>

text \<open>
  Strings are byte strings (\<open>char list\<close>). The functions below are the library calls
  the four scripts of \<^verbatim>\<open>tests/sprattus\<close> make, written out as recursions.
\<close>

text \<open>\<^verbatim>\<open>s.startswith(p)\<close>.\<close>

primrec startswith :: "string \<Rightarrow> string \<Rightarrow> bool" where
  "startswith [] s = True"
| "startswith (p # ps) s = (case s of [] \<Rightarrow> False | c # cs \<Rightarrow> p = c \<and> startswith ps cs)"

text \<open>\<^verbatim>\<open>p in s\<close>: the text \<open>p\<close> occurs somewhere in \<open>s\<close>.\<close>

fun contains :: "string \<Rightarrow> string \<Rightarrow> bool" where
  "contains p [] = startswith p []"
| "contains p (c # cs) = (startswith p (c # cs) \<or> contains p cs)"

text \<open>
  \<^verbatim>\<open>s.split(sep)\<close> for a non-empty separator: the pieces between the occurrences of
  \<open>sep\<close>, found from the left and not overlapping. \<open>cur\<close> holds the piece being
  read, reversed. (Python raises ValueError for an empty separator; the scripts only
  pass a constant, non-empty one.)
\<close>

fun split_from :: "string \<Rightarrow> string \<Rightarrow> string \<Rightarrow> string list" where
  "split_from sep cur [] = [rev cur]"
| "split_from sep cur (c # cs) =
     (if startswith sep (c # cs)
      then rev cur # split_from sep [] (drop (length sep - 1) cs)
      else split_from sep (c # cur) cs)"

definition split :: "string \<Rightarrow> string \<Rightarrow> string list" where
  "split sep s = split_from sep [] s"

text \<open>\<^verbatim>\<open>s.strip(chars)\<close>: drops the leading and the trailing characters that are in \<open>chars\<close>.\<close>

definition strip :: "char set \<Rightarrow> string \<Rightarrow> string" where
  "strip chars s = rev (dropWhile (\<lambda>c. c \<in> chars) (rev (dropWhile (\<lambda>c. c \<in> chars) s)))"

text \<open>
  \<^verbatim>\<open>fp.readlines()\<close> and \<^verbatim>\<open>for line in fp\<close>: the content of a file, as Python reads
  it in text mode, cut after each line feed; every line keeps its terminator, and only
  the last one can lack it.
\<close>

fun readlines :: "string \<Rightarrow> string list" where
  "readlines [] = []"
| "readlines (c # cs) =
     (if c = CHR 0x0A then [c] # readlines cs
      else (case readlines cs of [] \<Rightarrow> [[c]] | l # ls \<Rightarrow> (c # l) # ls))"

section \<open>The result checker: \<^verbatim>\<open>tests/sprattus/check.py\<close>\<close>

text \<open>
  \<^verbatim>\<open>termcolor.colored(text, color, attrs)\<close> is kept symbolic: a printed line is a
  list of segments, each plain or coloured. \<^verbatim>\<open>cprint(text, color)\<close> prints the one
  segment \<open>Colored text color []\<close>.
\<close>

datatype seg = Plain string | Colored string "string option" "string list"

type_synonym printed = "seg list"

text \<open>
  How the process ends: \<^verbatim>\<open>sys.exit(n)\<close> or the end of the script (status 0), or an
  exception nobody catches (the interpreter prints a traceback and exits with status 1).
  The two subscripts of the checker's loop that can raise IndexError are told apart; the
  other exceptions are those of the extractor and the migrator.
\<close>

datatype exc = IndexError_keyvalue | IndexError_argv | AssertionError | YAMLError | KeyError | TypeError

datatype status = Exit int | Uncaught exc

fun exit_code :: "status \<Rightarrow> int" where
  "exit_code (Exit n) = n"
| "exit_code (Uncaught e) = 1"

definition warning :: seg where
  "warning = Colored ''Warning:'' (Some ''red'') [''bold'']"

text \<open>What one pass through the loop body does: print and go on, or print and end.\<close>

datatype step = Continue "printed list" | Halt "printed list" status

text \<open>
  The body of \<^verbatim>\<open>for line in lines\<close> (lines 15 to 34). \<open>argv\<close> is \<^verbatim>\<open>sys.argv\<close>:
  the script's name, the result file, then the optional target and expected value.
\<close>

text \<open>
  Lines 15 to 18 read \<^verbatim>\<open>keyvalue[0]\<close> and \<^verbatim>\<open>keyvalue[1]\<close> of
  \<^verbatim>\<open>line.split(" -> ")\<close>: the identifier and the value of the line. A line without the
  separator splits into one piece, and \<^verbatim>\<open>keyvalue[1]\<close> raises IndexError (\<open>None\<close>).
\<close>

definition entry :: "string \<Rightarrow> (string \<times> string) option" where
  "entry line = (case split '' -> '' line of k # v # _ \<Rightarrow> Some (k, v) | _ \<Rightarrow> None)"

text \<open>Lines 19 and 20: the two lines printed for an identifier mapped to bottom.\<close>

definition bottom_warning :: "string \<Rightarrow> printed list" where
  "bottom_warning k = [[warning], [Colored k None [''bold''], Plain '' may be mapped to bottom'']]"

definition body :: "string list \<Rightarrow> string \<Rightarrow> step" where
  "body argv line =
     (case entry line of
        None \<Rightarrow> Halt [] (Uncaught IndexError_keyvalue)
      | Some (k, v) \<Rightarrow>
          if v = ''bottom'' then Continue (bottom_warning k)
          else if length argv > 2
          then
            if k = argv ! 2
            then
              if v = ''top''
              then Halt [[Colored (k @ '' is mapped to top. This is sound but maybe unintended'')
                            (Some ''yellow'') []]] (Exit 0)
              else if length argv > 3
              then
                if v = argv ! 3
                then Halt [[Colored ''Success'' (Some ''green'') []]] (Exit 0)
                else Halt [[Colored (''Fail! Wrong value for '' @ k) (Some ''red'') []],
                           [Colored (''Value was '' @ v @ '' but should be '' @ argv ! 3) None []]]
                       (Exit 0)
              else Halt [] (Uncaught IndexError_argv)
            else Continue []
          else Continue [])"

text \<open>The loop over the lines; falling off its end is the normal end of the script.\<close>

fun scan :: "string list \<Rightarrow> string list \<Rightarrow> printed list \<times> status" where
  "scan argv [] = ([], Exit 0)"
| "scan argv (line # lines) =
     (case body argv line of
        Continue out \<Rightarrow> (out @ fst (scan argv lines), snd (scan argv lines))
      | Halt out st \<Rightarrow> (out, st))"

text \<open>Lines 10 to 12: the lines of the result file, line feeds stripped.\<close>

definition result_lines :: "string \<Rightarrow> string list" where
  "result_lines content = map (strip {CHR 0x0A}) (readlines content)"

text \<open>
  The script, from the content of the result file \<^verbatim>\<open>sys.argv[1]\<close> on: what it prints
  and how it ends.
\<close>

definition check :: "string list \<Rightarrow> string \<Rightarrow> printed list \<times> status" where
  "check argv content = scan argv (result_lines content)"

text \<open>
  A line that lets the scan go on to the next one: it has a value part, and its value
  is bottom, or no target was given, or its identifier is not the target.
\<close>

definition goes_on :: "string list \<Rightarrow> string \<Rightarrow> bool" where
  "goes_on argv line =
     (case entry line of
        None \<Rightarrow> False
      | Some (k, v) \<Rightarrow> v = ''bottom'' \<or> length argv \<le> 2 \<or> k \<noteq> argv ! 2)"

section \<open>The literal encoder: \<^verbatim>\<open>tests/sprattus/double_to_smt.py\<close>\<close>

text \<open>\<^verbatim>\<open>s[i:j]\<close> and \<^verbatim>\<open>s[i:]\<close> for indices that are not negative; slicing never raises.\<close>

definition substr :: "nat \<Rightarrow> nat \<Rightarrow> 'a list \<Rightarrow> 'a list" where
  "substr i j s = take (j - i) (drop i s)"

text \<open>
  The digits \<^verbatim>\<open>format(n, 'b')\<close> and \<^verbatim>\<open>format(n, 'x')\<close> write for an integer that is
  not negative: most significant first, lower case, no leading zero, \<open>0\<close> for zero.
  The scripts use the bases 2 and 16; the test \<open>b < 2\<close> only makes the recursion end
  for every argument.
\<close>

definition digit_char :: "nat \<Rightarrow> char" where
  "digit_char d = ''0123456789abcdef'' ! d"

function digits :: "nat \<Rightarrow> nat \<Rightarrow> string" where
  "digits b n = (if n < b \<or> b < 2 then [digit_char n] else digits b (n div b) @ [digit_char (n mod b)])"
  by pat_completeness auto
termination
  by (relation "measure snd") auto

declare digits.simps [simp del]

text \<open>\<^verbatim>\<open>format(n, '0<width>b')\<close> and \<^verbatim>\<open>format(n, '0<width>x')\<close>: zeros on the left up to the width.\<close>

definition format_0 :: "nat \<Rightarrow> nat \<Rightarrow> nat \<Rightarrow> string" where
  "format_0 width b n = replicate (width - length (digits b n)) (CHR ''0'') @ digits b n"

text \<open>
  \<^verbatim>\<open>int(s, base)\<close> on a text of digits of that base, the letters in lower case.
  (Python raises ValueError on any other text; \<open>double_to_smt\<close> passes 52 binary
  digits, see \<open>format_0_binary\<close>. Here a character that is no digit counts as zero.)
\<close>

definition digit_value :: "char \<Rightarrow> nat" where
  "digit_value c =
     (let n = of_char c
      in if 48 \<le> n \<and> n \<le> 57 then n - 48 else if 97 \<le> n \<and> n \<le> 102 then n - 87 else 0)"

definition int_base :: "nat \<Rightarrow> string \<Rightarrow> nat" where
  "int_base b s = foldl (\<lambda>a c. a * b + digit_value c) 0 s"

text \<open>
  \<open>double_to_smt\<close>. The argument is the double given by its binary64 bit pattern:
  \<^verbatim>\<open>struct.unpack('!Q', struct.pack('!d', x))[0]\<close> reads the eight bytes of \<open>x\<close> as an
  unsigned integer, most significant byte first, so \<open>as_ull\<close> is that pattern as a
  number. \<open>bits\<close> has 64 characters (\<open>length_format_0_64\<close>), so \<^verbatim>\<open>bits[0]\<close> does
  not raise.
\<close>

definition double_to_smt :: "64 word \<Rightarrow> string" where
  "double_to_smt x =
     (let as_ull = unat x;
          bits = format_0 64 2 as_ull;
          exponent = substr 1 12 bits;
          significand = drop 12 bits;
          significand = format_0 13 16 (int_base 2 significand)
      in ''(fp #b'' @ [bits ! 0] @ '' #b'' @ exponent @ '' #x'' @ significand @ '')'')"

text \<open>\<^verbatim>\<open>string.ascii_letters\<close>.\<close>

definition ascii_letters :: string where
  "ascii_letters = ''abcdefghijklmnopqrstuvwxyzABCDEFGHIJKLMNOPQRSTUVWXYZ''"

definition nums :: "string list" where
  "nums = [''1.0'', ''-1.0'', ''2.0'', ''-2.0'', ''+0.0'', ''-0.0'', ''+inf'', ''-inf'',
           ''4.9406564584124654e-324'', ''-4.9406564584124654e-324'']"

text \<open>
  \<open>gen_literal_test\<close>: the lines it prints, in order. \<open>float\<close> is Python's
  \<^verbatim>\<open>float(text)\<close>, the binary64 value of a literal, given by its bit pattern; it is a
  parameter here and does not raise on the ten literals of \<open>nums\<close>.
\<close>

definition gen_literal_test :: "(string \<Rightarrow> 64 word) \<Rightarrow> string list" where
  "gen_literal_test float =
     map (\<lambda>(var, num). ''; RUN: grep '' @ [CHR 0x27] @ [var] @ '' -> '' @ double_to_smt (float num)
                          @ [CHR 0x27] @ '' %t2'')
       (zip ascii_letters nums)
     @ map (\<lambda>(var, num). ''%'' @ [var] @ '' = fadd double 0.0, '' @ num) (zip ascii_letters nums)"

text \<open>
  The binary64 bit patterns (IEEE 754) of the ten doubles of \<open>nums\<close>, in the order of
  the list: sign bit, eleven exponent bits, 52 significand bits.
\<close>

definition nums_binary64 :: "64 word list" where
  "nums_binary64 =
     [0x3FF0000000000000, 0xBFF0000000000000, 0x4000000000000000, 0xC000000000000000,
      0x0000000000000000, 0x8000000000000000, 0x7FF0000000000000, 0xFFF0000000000000,
      0x0000000000000001, 0x8000000000000001]"

text \<open>
  Reading a literal back, as the specification describes it: the three fields of the
  text \<^verbatim>\<open>(fp #b<sign> #b<exponent> #x<significand>)\<close>, one binary digit, eleven binary
  digits and thirteen hexadecimal digits, and the 64-bit pattern they make up.
\<close>

definition smt_fields :: "string \<Rightarrow> (string \<times> string \<times> string) option" where
  "smt_fields t =
     (if length t = 38 \<and> take 6 t = ''(fp #b'' \<and> substr 7 10 t = '' #b'' \<and>
         substr 21 24 t = '' #x'' \<and> drop 37 t = '')''
      then Some (substr 6 7 t, substr 10 21 t, substr 24 37 t) else None)"

definition smt_to_bits :: "string \<Rightarrow> 64 word option" where
  "smt_to_bits t =
     (case smt_fields t of
        None \<Rightarrow> None
      | Some (s, e, m) \<Rightarrow>
          Some (push_bit 63 (of_nat (int_base 2 s)) + push_bit 52 (of_nat (int_base 2 e))
                + of_nat (int_base 16 m)))"

section \<open>The directive extractor: \<^verbatim>\<open>tests/sprattus/extract_config.py\<close>\<close>

text \<open>\<^verbatim>\<open>s.endswith('\n')\<close>.\<close>

definition ends_with_newline :: "string \<Rightarrow> bool" where
  "ends_with_newline s = (s \<noteq> [] \<and> last s = CHR 0x0A)"

text \<open>
  The characters \<^verbatim>\<open>s.strip()\<close> removes from a byte string: space, tab, line feed,
  carriage return, vertical tab and form feed.
\<close>

definition whitespace :: "char set" where
  "whitespace = {CHR 0x20, CHR 0x09, CHR 0x0A, CHR 0x0D, CHR 0x0B, CHR 0x0C}"

text \<open>
  \<^verbatim>\<open>config_re.findall(line)\<close> for the pattern \<^verbatim>\<open>(CONFIG:)(.*\n)\<close>, second group of
  each match: from the left, every \<^verbatim>\<open>CONFIG:\<close> that has a line feed somewhere after it
  matches, with the text after it up to and with that line feed; the search goes on
  after the line feed. The dot does not match a line feed.
\<close>

function config_re_findall :: "string \<Rightarrow> string list" where
  "config_re_findall [] = []"
| "config_re_findall (c # cs) =
     (if startswith ''CONFIG:'' (c # cs) \<and> CHR 0x0A \<in> set (drop 6 cs)
      then (takeWhile (\<lambda>x. x \<noteq> CHR 0x0A) (drop 6 cs) @ [CHR 0x0A])
             # config_re_findall (drop 1 (dropWhile (\<lambda>x. x \<noteq> CHR 0x0A) (drop 6 cs)))
      else config_re_findall cs)"
  by pat_completeness auto
termination
proof (relation "measure length")
  fix c :: char and cs :: string
  have "length (dropWhile (\<lambda>x. x \<noteq> CHR 0x0A) (drop 6 cs)) \<le> length (drop 6 cs)"
    by (rule length_dropWhile_le)
  then show "(drop 1 (dropWhile (\<lambda>x. x \<noteq> CHR 0x0A) (drop 6 cs)), c # cs) \<in> measure length"
    by simp
qed simp_all

declare config_re_findall.simps [simp del]

text \<open>
  \<open>main\<close> of the extractor over the lines of its input: what it has written to the
  standard output, one element per \<^verbatim>\<open>sys.stdout.write\<close>, and how it ends. The
  \<^verbatim>\<open>assert\<close> is tested when the loop reaches the line, after the payloads of the lines
  before it have been written. (The model is of a run with assertions on, the default.)
\<close>

fun main_extract_config :: "string list \<Rightarrow> string list \<times> status" where
  "main_extract_config [] = ([], Exit 0)"
| "main_extract_config (line # lines) =
     (if \<not> ends_with_newline line then ([], Uncaught AssertionError)
      else (map (\<lambda>config_line. strip whitespace config_line @ [CHR 0x0A]) (config_re_findall line)
              @ fst (main_extract_config lines),
            snd (main_extract_config lines)))"

text \<open>The script: \<open>main\<close> on the file \<^verbatim>\<open>sys.argv[1]\<close>, given by its content.\<close>

definition extract_config :: "string \<Rightarrow> string list \<times> status" where
  "extract_config content = main_extract_config (readlines content)"

section \<open>The migrator: \<^verbatim>\<open>tests/sprattus/convert_old_config.py\<close>\<close>

text \<open>
  \<^verbatim>\<open>config_re.match(line)\<close> for the pattern \<^verbatim>\<open>^(.*CONFIG:)(.*)$\<close>, the two groups of
  the match. The dots match up to the first line feed and \<^verbatim>\<open>$\<close> matches at the end of
  the text or before a line feed that ends it, so a line matches when nothing follows
  its first line feed and \<^verbatim>\<open>CONFIG:\<close> occurs before it. The first group is greedy: it
  ends with the last \<^verbatim>\<open>CONFIG:\<close>, and the second group is what follows on the line.
\<close>

fun last_marker :: "string \<Rightarrow> (string \<times> string) option" where
  "last_marker [] = None"
| "last_marker (c # cs) =
     (case last_marker cs of
        Some (g1, g2) \<Rightarrow> Some (c # g1, g2)
      | None \<Rightarrow> if startswith ''CONFIG:'' (c # cs) then Some (''CONFIG:'', drop 6 cs) else None)"

definition config_re_match :: "string \<Rightarrow> (string \<times> string) option" where
  "config_re_match line =
     (let rest = dropWhile (\<lambda>x. x \<noteq> CHR 0x0A) line
      in if rest = [] \<or> rest = [CHR 0x0A]
         then last_marker (takeWhile (\<lambda>x. x \<noteq> CHR 0x0A) line) else None)"

text \<open>The four variables of \<open>main\<close> that the loop over the lines updates.\<close>

record scan_state =
  lines_pre :: "string list"
  lines_post :: "string list"
  yaml_src :: string
  prefix :: "string option"

definition scan_line :: "scan_state \<Rightarrow> string \<Rightarrow> scan_state" where
  "scan_line st line =
     (case config_re_match line of
        None \<Rightarrow>
          if prefix st = None then st\<lparr>lines_pre := lines_pre st @ [line]\<rparr>
          else st\<lparr>lines_post := lines_post st @ [line]\<rparr>
      | Some (g1, g2) \<Rightarrow> st\<lparr>yaml_src := yaml_src st @ [CHR 0x0A] @ g2, prefix := Some g1\<rparr>)"

definition scan_lines :: "string list \<Rightarrow> scan_state" where
  "scan_lines lines =
     foldl scan_line \<lparr>lines_pre = [], lines_post = [], yaml_src = [], prefix = None\<rparr> lines"

text \<open>
  What \<^verbatim>\<open>yaml.load\<close> can return: nothing, a text, another scalar (a number, a truth
  value, a date; only the text \<^verbatim>\<open>str\<close> gives for it is kept), a list, or a mapping,
  here the list of its items in the order \<^verbatim>\<open>items()\<close> yields them.
\<close>

datatype yaml = Null | Str string | Scalar string | Seq "yaml list" | Mapping "(yaml \<times> yaml) list"

text \<open>
  \<^verbatim>\<open>'%s' % v\<close>. For a list or a mapping Python writes the \<^verbatim>\<open>repr\<close> of the elements,
  which is a parameter here.
\<close>

definition str :: "(yaml \<Rightarrow> string) \<Rightarrow> yaml \<Rightarrow> string" where
  "str repr v =
     (case v of Null \<Rightarrow> ''None'' | Str s \<Rightarrow> s | Scalar t \<Rightarrow> t | Seq xs \<Rightarrow> repr v | Mapping kvs \<Rightarrow> repr v)"

text \<open>
  \<^verbatim>\<open>yaml_dict['AbstractDomain']\<close>: KeyError when the mapping has no such key, TypeError
  when the document is not a mapping.
\<close>

definition getitem :: "yaml \<Rightarrow> string \<Rightarrow> exc + yaml" where
  "getitem d key =
     (case d of
        Mapping kvs \<Rightarrow> (case map_of kvs (Str key) of None \<Rightarrow> Inl KeyError | Some v \<Rightarrow> Inr v)
      | _ \<Rightarrow> Inl TypeError)"

text \<open>\<^verbatim>\<open>del yaml_dict['AbstractDomain']\<close> followed by \<^verbatim>\<open>yaml_dict.items()\<close>, on a mapping.\<close>

definition items_without :: "yaml \<Rightarrow> string \<Rightarrow> (yaml \<times> yaml) list" where
  "items_without d key =
     (case d of Mapping kvs \<Rightarrow> filter (\<lambda>(k, v). k \<noteq> Str key) kvs | _ \<Rightarrow> [])"

text \<open>
  \<^verbatim>\<open>for x in domains\<close>: the elements of a list, the characters of a text, the keys of a
  mapping; anything else is not iterable (TypeError).
\<close>

definition iterate :: "yaml \<Rightarrow> yaml list option" where
  "iterate v =
     (case v of
        Seq xs \<Rightarrow> Some xs
      | Str s \<Rightarrow> Some (map (\<lambda>c. Str [c]) s)
      | Mapping kvs \<Rightarrow> Some (map fst kvs)
      | _ \<Rightarrow> None)"

text \<open>\<^verbatim>\<open>sep.join(xs)\<close>.\<close>

fun join :: "string \<Rightarrow> string list \<Rightarrow> string" where
  "join sep [] = []"
| "join sep [x] = x"
| "join sep (x # y # ys) = x @ sep @ join sep (y # ys)"

text \<open>Lines 38 and 41: the two kinds of line written; \<^verbatim>\<open>'%s' % None\<close> is \<^verbatim>\<open>None\<close>.\<close>

definition config_line :: "(yaml \<Rightarrow> string) \<Rightarrow> string option \<Rightarrow> yaml \<times> yaml \<Rightarrow> string" where
  "config_line repr p kv =
     (case p of None \<Rightarrow> ''None'' | Some t \<Rightarrow> t) @ '' config.'' @ str repr (fst kv) @ '' = ''
       @ str repr (snd kv) @ [CHR 0x0A]"

definition domain_line :: "(yaml \<Rightarrow> string) \<Rightarrow> string option \<Rightarrow> yaml list \<Rightarrow> string" where
  "domain_line repr p domains =
     (case p of None \<Rightarrow> ''None'' | Some t \<Rightarrow> t) @ '' config.AbstractDomain = [''
       @ join '', '' (map (\<lambda>x. ''globals()['' @ [CHR 0x27] @ str repr x @ [CHR 0x27] @ '']'') domains)
       @ '']'' @ [CHR 0x0A]"

text \<open>
  \<open>main\<close> of the migrator, from the content of the file on: the content of the file
  when the process ends, and how it ends. \<open>yaml_load\<close> is \<^verbatim>\<open>yaml.load\<close>, a parameter:
  \<open>None\<close> when it raises. \<^verbatim>\<open>open(file_name, 'w')\<close> empties the file; every
  \<^verbatim>\<open>out.write\<close> appends to it, and leaving the \<^verbatim>\<open>with\<close> block, by its end or by an
  exception, keeps what has been written.
\<close>

definition main_convert_old_config ::
  "(string \<Rightarrow> yaml option) \<Rightarrow> (yaml \<Rightarrow> string) \<Rightarrow> string \<Rightarrow> string \<times> status" where
  "main_convert_old_config yaml_load repr content =
     (let st = scan_lines (readlines content)
      in case yaml_load (yaml_src st) of
           None \<Rightarrow> (content, Uncaught YAMLError)
         | Some yaml_dict \<Rightarrow>
             (let out = concat (lines_pre st)
              in case getitem yaml_dict ''AbstractDomain'' of
                   Inl e \<Rightarrow> (out, Uncaught e)
                 | Inr domains \<Rightarrow>
                     (let out = out @ concat (map (config_line repr (prefix st))
                                               (items_without yaml_dict ''AbstractDomain''))
                      in case iterate domains of
                           None \<Rightarrow> (out, Uncaught TypeError)
                         | Some xs \<Rightarrow>
                             (out @ domain_line repr (prefix st) xs @ concat (lines_post st),
                              Exit 0))))"

section \<open>Properties of the string primitives\<close>

text \<open>The lines of a file make up its content, none is empty, and all but the last end with a line feed.\<close>

lemma readlines_concat: "concat (readlines s) = s"
  by (induction s) (auto split: list.splits)

lemma readlines_no_empty_line: "[] \<notin> set (readlines s)"
  by (induction s) (auto split: list.splits)

lemma readlines_terminated: "l \<in> set (butlast (readlines s)) \<Longrightarrow> ends_with_newline l"
proof (induction s arbitrary: l)
  case Nil
  then show ?case by simp
next
  case (Cons c cs)
  show ?case
  proof (cases "readlines cs")
    case Nil
    with Cons.prems show ?thesis by (simp split: if_splits)
  next
    case tail: (Cons m ms)
    have m: "m \<noteq> []"
      using readlines_no_empty_line [of cs] tail by auto
    show ?thesis
    proof (cases "c = CHR 0x0A")
      case True
      with Cons.prems tail Cons.IH show ?thesis
        by (auto simp: ends_with_newline_def)
    next
      case False
      with Cons.prems tail have ms: "ms \<noteq> []" by auto
      with Cons.prems tail False have "l = c # m \<or> l \<in> set (butlast ms)" by auto
      moreover from ms tail have "ends_with_newline m"
        using Cons.IH [of m] by simp
      moreover have "l \<in> set (butlast ms) \<Longrightarrow> ends_with_newline l"
        using Cons.IH [of l] tail ms by simp
      ultimately show ?thesis using m by (auto simp: ends_with_newline_def)
    qed
  qed
qed

section \<open>Properties of the result checker\<close>

subsection \<open>Splitting a line at the separator\<close>

lemma split_from_nonempty: "split_from sep cur s \<noteq> []"
  by (induction sep cur s rule: split_from.induct) auto

lemma split_from_single:
  "\<not> contains sep s \<Longrightarrow> split_from sep cur s = [rev cur @ s]"
  by (induction sep cur s rule: split_from.induct) auto

lemma split_from_two:
  "contains sep s \<Longrightarrow> sep \<noteq> [] \<Longrightarrow> \<exists>k v r. split_from sep cur s = k # v # r"
proof (induction sep cur s rule: split_from.induct)
  case (1 sep cur)
  then show ?case by (cases sep) auto
next
  case (2 sep cur c cs)
  show ?case
  proof (cases "startswith sep (c # cs)")
    case True
    obtain v r where "split_from sep [] (drop (length sep - 1) cs) = v # r"
      using split_from_nonempty by (meson list.exhaust)
    with True show ?thesis by simp
  next
    case False
    with 2 show ?thesis by simp
  qed
qed

lemma entry_None_iff: "entry line = None \<longleftrightarrow> \<not> contains '' -> '' line"
proof (cases "contains '' -> '' line")
  case True
  then obtain k v r where "split '' -> '' line = k # v # r"
    using split_from_two [of "'' -> ''" line "[]"] by (auto simp: split_def)
  with True show ?thesis by (simp add: entry_def)
next
  case False
  then show ?thesis by (simp add: entry_def split_def split_from_single)
qed

subsection \<open>The loop\<close>

lemma body_Continue_iff: "(\<exists>out. body argv line = Continue out) \<longleftrightarrow> goes_on argv line"
  by (auto simp: body_def goes_on_def split: option.splits)

lemma scan_append:
  "\<forall>p\<in>set pre. goes_on argv p \<Longrightarrow>
   scan argv (pre @ rest) = (fst (scan argv pre) @ fst (scan argv rest), snd (scan argv rest))"
proof (induction pre)
  case Nil
  then show ?case by simp
next
  case (Cons p pre)
  then obtain out where "body argv p = Continue out"
    using body_Continue_iff [of argv p] by auto
  with Cons show ?case by simp
qed

lemma body_status:
  "length argv \<noteq> 3 \<Longrightarrow> entry l \<noteq> None \<Longrightarrow> body argv l = Halt out st \<Longrightarrow> st = Exit 0"
  by (auto simp: body_def split: option.splits if_splits)

lemma scan_status:
  "length argv \<noteq> 3 \<Longrightarrow> \<forall>l\<in>set ls. entry l \<noteq> None \<Longrightarrow> snd (scan argv ls) = Exit 0"
proof (induction ls)
  case Nil
  then show ?case by simp
next
  case (Cons l ls)
  show ?case
  proof (cases "body argv l")
    case (Continue out)
    with Cons show ?thesis by simp
  next
    case (Halt out st)
    with Cons.prems body_status [of argv l out st] show ?thesis by simp
  qed
qed

lemma body_keyvalue_error:
  "body argv l = Halt out (Uncaught IndexError_keyvalue) \<Longrightarrow> entry l = None"
  by (auto simp: body_def split: option.splits if_splits)

lemma scan_keyvalue_error:
  "snd (scan argv ls) = Uncaught IndexError_keyvalue \<Longrightarrow>
   \<exists>pre l post. ls = pre @ l # post \<and> (\<forall>p\<in>set pre. goes_on argv p) \<and> entry l = None"
proof (induction ls)
  case Nil
  then show ?case by simp
next
  case (Cons a ls)
  show ?case
  proof (cases "body argv a")
    case (Continue out)
    with Cons obtain pre l post where
      d: "ls = pre @ l # post" "\<forall>p\<in>set pre. goes_on argv p" "entry l = None"
      by auto
    from Continue have "goes_on argv a"
      using body_Continue_iff [of argv a] by auto
    with d have "a # ls = (a # pre) @ l # post \<and> (\<forall>p\<in>set (a # pre). goes_on argv p) \<and> entry l = None"
      by simp
    then show ?thesis by blast
  next
    case (Halt out st)
    with Cons.prems have "entry a = None"
      using body_keyvalue_error [of argv a out] by simp
    then have "a # ls = [] @ a # ls \<and> (\<forall>p\<in>set []. goes_on argv p) \<and> entry a = None"
      by simp
    then show ?thesis by blast
  qed
qed

subsection \<open>The examples of the specification\<close>

lemma check_example_success:
  "check [''check.py'', ''res'', ''x'', ''5''] ''x -> 5\<newline>'' =
     ([[Colored ''Success'' (Some ''green'') []]], Exit 0)"
  by (simp add: check_def result_lines_def strip_def body_def entry_def split_def)

lemma check_example_failure:
  "check [''check.py'', ''res'', ''x'', ''6''] ''x -> 5\<newline>'' =
     ([[Colored ''Fail! Wrong value for x'' (Some ''red'') []],
       [Colored ''Value was 5 but should be 6'' None []]], Exit 0)"
  by (simp add: check_def result_lines_def strip_def body_def entry_def split_def)

lemma check_example_bottom:
  "check [''check.py'', ''res'', ''y'', ''5''] ''x -> bottom\<newline>'' = (bottom_warning ''x'', Exit 0)"
  by (simp add: check_def result_lines_def strip_def body_def entry_def split_def)

text \<open>A target without an expected value: \<^verbatim>\<open>sys.argv[3]\<close> raises at the target's line.\<close>

lemma check_example_target_without_expected:
  "check [''check.py'', ''res'', ''x''] ''x -> 5\<newline>'' = ([], Uncaught IndexError_argv)"
  by (simp add: check_def result_lines_def strip_def body_def entry_def split_def)

subsection \<open>The claims\<close>

text \<open>
  Claim C5. With target and expected value both given, the first line whose identifier
  is the target and whose value is not bottom ends the scan with status 0: nothing of
  the lines after it is read (they are arbitrary and do not show in the result), and
  what is printed for it is the top notice when the value is top (whatever the expected
  value), Success when the value is the expected one, and otherwise the two failure
  lines naming the identifier, the value found and the value expected. The lines before
  it are result lines (they have a value part) that are bottom lines or other
  identifiers'.
\<close>

theorem check_first_target_decides:
  assumes argv: "argv = [prog, file, target, expected]"
    and lines: "result_lines content = pre @ l # post"
    and pre: "\<forall>p\<in>set pre. goes_on argv p"
    and l: "entry l = Some (target, v)" "v \<noteq> ''bottom''"
  shows "check argv content =
           (fst (scan argv pre) @
            (if v = ''top''
             then [[Colored (target @ '' is mapped to top. This is sound but maybe unintended'')
                      (Some ''yellow'') []]]
             else if v = expected
             then [[Colored ''Success'' (Some ''green'') []]]
             else [[Colored (''Fail! Wrong value for '' @ target) (Some ''red'') []],
                   [Colored (''Value was '' @ v @ '' but should be '' @ expected) None []]]),
            Exit 0)"
proof -
  have "scan argv (l # post) =
          ((if v = ''top''
             then [[Colored (target @ '' is mapped to top. This is sound but maybe unintended'')
                      (Some ''yellow'') []]]
             else if v = expected
             then [[Colored ''Success'' (Some ''green'') []]]
             else [[Colored (''Fail! Wrong value for '' @ target) (Some ''red'') []],
                   [Colored (''Value was '' @ v @ '' but should be '' @ expected) None []]]),
            Exit 0)"
    using l by (simp add: body_def argv)
  then show ?thesis
    using scan_append [OF pre, of "l # post"] by (simp add: check_def lines)
qed

theorem check_first_target_decides_witness:
  "check [''check.py'', ''res'', ''x'', ''5''] ''y -> 1\<newline>x -> bottom\<newline>x -> 6\<newline>x -> 5\<newline>junk'' =
     ([[warning], [Colored ''x'' None [''bold''], Plain '' may be mapped to bottom''],
       [Colored ''Fail! Wrong value for x'' (Some ''red'') []],
       [Colored ''Value was 6 but should be 5'' None []]], Exit 0)"
proof -
  have lines: "result_lines ''y -> 1\<newline>x -> bottom\<newline>x -> 6\<newline>x -> 5\<newline>junk'' =
      [''y -> 1'', ''x -> bottom''] @ ''x -> 6'' # [''x -> 5'', ''junk'']"
    by (simp add: result_lines_def strip_def)
  have pre: "\<forall>p\<in>set [''y -> 1'', ''x -> bottom'']. goes_on [''check.py'', ''res'', ''x'', ''5''] p"
    by (simp add: goes_on_def entry_def split_def)
  have l: "entry ''x -> 6'' = Some (''x'', ''6'')" "''6'' \<noteq> ''bottom''"
    by (simp_all add: entry_def split_def)
  show ?thesis
    using check_first_target_decides [OF refl lines pre l]
    by (simp add: body_def entry_def split_def bottom_warning_def)
qed

text \<open>
  Claim C6 as stated does not hold for every line of the file: once a target line has
  ended the scan, a later bottom line is never read and gets no warning. Here the first
  line is the target mapped to top and the second line is mapped to bottom.
\<close>

theorem check_bottom_everywhere_counterexample:
  "result_lines ''y -> top\<newline>x -> bottom\<newline>'' = [''y -> top'', ''x -> bottom''] \<and>
   entry ''x -> bottom'' = Some (''x'', ''bottom'') \<and>
   check [''check.py'', ''res'', ''y'', ''5''] ''y -> top\<newline>x -> bottom\<newline>'' =
     ([[Colored ''y is mapped to top. This is sound but maybe unintended'' (Some ''yellow'') []]],
      Exit 0) \<and>
   [warning] \<notin> set (fst (check [''check.py'', ''res'', ''y'', ''5''] ''y -> top\<newline>x -> bottom\<newline>''))"
  by (simp add: check_def result_lines_def strip_def body_def entry_def split_def warning_def)

text \<open>
  Claim C6, amended. For every argument list (target and expected value given or not),
  a bottom line that the scan reaches (every line before it let the scan go on) gets
  the warning naming its identifier, also when the identifier is the target, and does
  not end the scan: the rest of the output and the final status are those of scanning
  the lines after it.
\<close>

theorem check_bottom_warns_and_goes_on:
  assumes lines: "result_lines content = pre @ l # post"
    and pre: "\<forall>p\<in>set pre. goes_on argv p"
    and l: "entry l = Some (k, ''bottom'')"
  shows "check argv content =
           (fst (scan argv pre) @ bottom_warning k @ fst (scan argv post), snd (scan argv post))"
proof -
  have "body argv l = Continue (bottom_warning k)"
    using l by (simp add: body_def)
  then have "scan argv (l # post) = (bottom_warning k @ fst (scan argv post), snd (scan argv post))"
    by simp
  then show ?thesis
    using scan_append [OF pre, of "l # post"] by (simp add: check_def lines)
qed

theorem check_bottom_warns_and_goes_on_witness:
  "check [''check.py'', ''res'', ''x'', ''5''] ''y -> 1\<newline>x -> bottom\<newline>x -> 5\<newline>'' =
     ([[warning], [Colored ''x'' None [''bold''], Plain '' may be mapped to bottom''],
       [Colored ''Success'' (Some ''green'') []]], Exit 0)"
proof -
  have lines: "result_lines ''y -> 1\<newline>x -> bottom\<newline>x -> 5\<newline>'' =
      [''y -> 1''] @ ''x -> bottom'' # [''x -> 5'']"
    by (simp add: result_lines_def strip_def)
  have pre: "\<forall>p\<in>set [''y -> 1'']. goes_on [''check.py'', ''res'', ''x'', ''5''] p"
    by (simp add: goes_on_def entry_def split_def)
  have l: "entry ''x -> bottom'' = Some (''x'', ''bottom'')"
    by (simp add: entry_def split_def)
  show ?thesis
    using check_bottom_warns_and_goes_on [OF lines pre l]
    by (simp add: body_def entry_def split_def bottom_warning_def)
qed

text \<open>
  Claim C7. When every line of the result file has the separator and the arguments are
  the file alone or the file with target and expected value, the script ends with
  status 0, whatever it printed (success, mismatch, top notice, warnings or nothing).
\<close>

theorem check_exit_zero:
  assumes argv: "length argv = 2 \<or> 4 \<le> length argv"
    and wf: "\<forall>l\<in>set (result_lines content). contains '' -> '' l"
  shows "snd (check argv content) = Exit 0 \<and> exit_code (snd (check argv content)) = 0"
proof -
  from argv have "length argv \<noteq> 3" by auto
  moreover from wf have "\<forall>l\<in>set (result_lines content). entry l \<noteq> None"
    by (simp add: entry_None_iff)
  ultimately have "snd (scan argv (result_lines content)) = Exit 0"
    by (rule scan_status)
  then show ?thesis by (simp add: check_def)
qed

theorem check_exit_zero_witness:
  "snd (check [''check.py'', ''res'', ''x'', ''6''] ''y -> bottom\<newline>x -> 5\<newline>'') = Exit 0 \<and>
   fst (check [''check.py'', ''res'', ''x'', ''6''] ''y -> bottom\<newline>x -> 5\<newline>'') =
     bottom_warning ''y'' @
     [[Colored ''Fail! Wrong value for x'' (Some ''red'') []],
      [Colored ''Value was 5 but should be 6'' None []]]"
proof -
  have argv: "length [''check.py'', ''res'', ''x'', ''6''] = 2 \<or> 4 \<le> length [''check.py'', ''res'', ''x'', ''6'']"
    by simp
  have wf: "\<forall>l\<in>set (result_lines ''y -> bottom\<newline>x -> 5\<newline>''). contains '' -> '' l"
    by (simp add: result_lines_def strip_def)
  have "fst (check [''check.py'', ''res'', ''x'', ''6''] ''y -> bottom\<newline>x -> 5\<newline>'') =
     bottom_warning ''y'' @
     [[Colored ''Fail! Wrong value for x'' (Some ''red'') []],
      [Colored ''Value was 5 but should be 6'' None []]]"
    by (simp add: check_def result_lines_def strip_def body_def entry_def split_def)
  then show ?thesis
    using check_exit_zero [OF argv wf] by simp
qed

text \<open>
  Claim C10. The script ends with the uncaught IndexError of \<^verbatim>\<open>keyvalue[1]\<close>
  (status 1) exactly when the scan reaches a line without the separator, that is, when
  some line lacks it and every line before that one let the scan go on. So the error
  is raised at every such line reached, an empty line included, and never when all the
  lines reached have the separator.
\<close>

theorem check_aborts_iff_line_without_separator:
  "snd (check argv content) = Uncaught IndexError_keyvalue \<longleftrightarrow>
   (\<exists>pre l post. result_lines content = pre @ l # post \<and>
      (\<forall>p\<in>set pre. goes_on argv p) \<and> \<not> contains '' -> '' l)"
proof
  assume "snd (check argv content) = Uncaught IndexError_keyvalue"
  then show "\<exists>pre l post. result_lines content = pre @ l # post \<and>
      (\<forall>p\<in>set pre. goes_on argv p) \<and> \<not> contains '' -> '' l"
    using scan_keyvalue_error [of argv "result_lines content"]
    by (simp add: check_def entry_None_iff)
next
  assume "\<exists>pre l post. result_lines content = pre @ l # post \<and>
      (\<forall>p\<in>set pre. goes_on argv p) \<and> \<not> contains '' -> '' l"
  then obtain pre l post where
    lines: "result_lines content = pre @ l # post"
    and pre: "\<forall>p\<in>set pre. goes_on argv p"
    and l: "\<not> contains '' -> '' l"
    by blast
  from l have "entry l = None" by (simp add: entry_None_iff)
  then have "scan argv (l # post) = ([], Uncaught IndexError_keyvalue)"
    by (simp add: body_def)
  then show "snd (check argv content) = Uncaught IndexError_keyvalue"
    using scan_append [OF pre, of "l # post"] by (simp add: check_def lines)
qed

theorem check_aborts_iff_line_without_separator_witness:
  "snd (check [''check.py'', ''res''] ''x -> 1\<newline>\<newline>y -> 2\<newline>'') = Uncaught IndexError_keyvalue \<and>
   exit_code (snd (check [''check.py'', ''res''] ''x -> 1\<newline>\<newline>y -> 2\<newline>'')) = 1 \<and>
   snd (check [''check.py'', ''res''] ''x -> 1\<newline>y -> 2\<newline>'') \<noteq> Uncaught IndexError_keyvalue"
proof -
  have "result_lines ''x -> 1\<newline>\<newline>y -> 2\<newline>'' = [''x -> 1''] @ [] # [''y -> 2''] \<and>
      (\<forall>p\<in>set [''x -> 1'']. goes_on [''check.py'', ''res''] p) \<and> \<not> contains '' -> '' []"
    by (simp add: result_lines_def strip_def goes_on_def entry_def split_def)
  then have "\<exists>pre l post. result_lines ''x -> 1\<newline>\<newline>y -> 2\<newline>'' = pre @ l # post \<and>
      (\<forall>p\<in>set pre. goes_on [''check.py'', ''res''] p) \<and> \<not> contains '' -> '' l"
    by blast
  then have a: "snd (check [''check.py'', ''res''] ''x -> 1\<newline>\<newline>y -> 2\<newline>'') = Uncaught IndexError_keyvalue"
    using check_aborts_iff_line_without_separator
      [of "[''check.py'', ''res'']" "''x -> 1\<newline>\<newline>y -> 2\<newline>''"] by simp
  have b: "snd (check [''check.py'', ''res''] ''x -> 1\<newline>y -> 2\<newline>'') \<noteq> Uncaught IndexError_keyvalue"
    by (simp add: check_def result_lines_def strip_def body_def entry_def split_def)
  from a b show ?thesis by simp
qed

section \<open>Properties of the literal encoder\<close>

subsection \<open>Digits written and read back\<close>

lemma digit_value_digit_char: "d < 16 \<Longrightarrow> digit_value (digit_char d) = d"
proof -
  assume "d < 16"
  then have "d = 0 \<or> d = 1 \<or> d = 2 \<or> d = 3 \<or> d = 4 \<or> d = 5 \<or> d = 6 \<or> d = 7 \<or> d = 8 \<or>
      d = 9 \<or> d = 10 \<or> d = 11 \<or> d = 12 \<or> d = 13 \<or> d = 14 \<or> d = 15"
    by arith
  then show ?thesis
    by (elim disjE) (simp_all add: digit_value_def digit_char_def)
qed

lemma int_base_snoc: "int_base b (s @ [c]) = int_base b s * b + digit_value c"
  by (simp add: int_base_def)

lemma int_base_digits: "2 \<le> b \<Longrightarrow> b \<le> 16 \<Longrightarrow> int_base b (digits b n) = n"
proof (induction b n rule: digits.induct)
  case (1 b n)
  show ?case
  proof (cases "n < b")
    case True
    with 1 show ?thesis by (subst digits.simps) (simp add: int_base_def digit_value_digit_char)
  next
    case False
    with 1 have "int_base b (digits b (n div b)) = n div b" by simp
    moreover have "n mod b < b" using 1(2) by simp
    then have "n mod b < 16" using 1(3) by linarith
    ultimately show ?thesis
      using False 1(2) by (subst digits.simps) (simp add: int_base_snoc digit_value_digit_char)
  qed
qed

lemma int_base_zeros: "int_base b (replicate k (CHR ''0'') @ s) = int_base b s"
proof -
  have "foldl (\<lambda>a c. a * b + digit_value c) 0 (replicate k (CHR ''0'')) = 0"
    by (induction k) (simp_all add: digit_value_def)
  then show ?thesis by (simp add: int_base_def)
qed

lemma int_base_format_0: "2 \<le> b \<Longrightarrow> b \<le> 16 \<Longrightarrow> int_base b (format_0 w b n) = n"
  by (simp add: format_0_def int_base_zeros int_base_digits)

lemma length_digits: "2 \<le> b \<Longrightarrow> 0 < k \<Longrightarrow> n < b ^ k \<Longrightarrow> length (digits b n) \<le> k"
proof (induction b n arbitrary: k rule: digits.induct)
  case (1 b n)
  show ?case
  proof (cases "n < b")
    case True
    with 1 show ?thesis by (subst digits.simps) simp
  next
    case False
    with 1(4) have "k \<noteq> 1" by auto
    with 1(3) obtain j where j: "k = Suc j" "0 < j" by (cases k) auto
    from 1(4) j have "n div b < b ^ j"
      by (simp add: less_mult_imp_div_less mult.commute)
    with 1(1) [of j] False 1(2) j have "length (digits b (n div b)) \<le> j" by simp
    with False 1(2) j show ?thesis by (subst digits.simps) simp
  qed
qed

lemma length_format_0: "2 \<le> b \<Longrightarrow> 0 < w \<Longrightarrow> n < b ^ w \<Longrightarrow> length (format_0 w b n) = w"
  using length_digits [of b w n] by (simp add: format_0_def)

lemma digits_binary: "set (digits 2 n) \<subseteq> {CHR ''0'', CHR ''1''}"
proof (induction "2::nat" n rule: digits.induct)
  case (1 n)
  show ?case
  proof (cases "n < 2")
    case True
    then have "n = 0 \<or> n = 1" by arith
    then show ?thesis by (subst digits.simps) (auto simp: digit_char_def)
  next
    case False
    have "n mod 2 = 0 \<or> n mod 2 = 1" by arith
    then have "digit_char (n mod 2) \<in> {CHR ''0'', CHR ''1''}"
      by (auto simp: digit_char_def)
    with False 1 show ?thesis by (subst digits.simps) simp
  qed
qed

lemma format_0_binary: "set (format_0 w 2 n) \<subseteq> {CHR ''0'', CHR ''1''}"
  using digits_binary [of n] by (auto simp: format_0_def)

lemma int_base_append:
  "int_base b (xs @ ys) = int_base b xs * b ^ length ys + int_base b ys"
proof (induction ys rule: rev_induct)
  case Nil
  then show ?case by (simp add: int_base_def)
next
  case (snoc c ys)
  have "int_base b (xs @ ys @ [c]) = int_base b (xs @ ys) * b + digit_value c"
    using int_base_snoc [of b "xs @ ys" c] by simp
  with snoc show ?case
    by (simp add: int_base_snoc algebra_simps)
qed

lemma int_base_less:
  "set s \<subseteq> {CHR ''0'', CHR ''1''} \<Longrightarrow> int_base 2 s < 2 ^ length s"
proof (induction s rule: rev_induct)
  case Nil
  then show ?case by (simp add: int_base_def)
next
  case (snoc c s)
  then have "digit_value c \<le> 1" by (auto simp: digit_value_def)
  moreover from snoc have "int_base 2 s < 2 ^ length s" by simp
  ultimately show ?case by (simp add: int_base_snoc)
qed

lemma smt_fields_literal:
  "length e = 11 \<Longrightarrow> length m = 13 \<Longrightarrow>
   smt_fields (''(fp #b'' @ [s] @ '' #b'' @ e @ '' #x'' @ m @ '')'') = Some ([s], e, m)"
  by (simp add: smt_fields_def substr_def)

subsection \<open>Every literal reads back as the bit pattern it was written from\<close>

lemma length_format_0_64: "length (format_0 64 2 (unat (x :: 64 word))) = 64"
proof -
  have "unat x < 2 ^ 64"
    using unsigned_less [of x, where 'a = nat] by simp
  then show ?thesis by (simp add: length_format_0)
qed

lemma smt_to_bits_double_to_smt: "smt_to_bits (double_to_smt x) = Some x"
proof -
  define bits where "bits = format_0 64 2 (unat x)"
  define s where "s = bits ! 0"
  define e where "e = substr 1 12 bits"
  define m where "m = drop 12 bits"
  define sig where "sig = format_0 13 16 (int_base 2 m)"
  have len: "length bits = 64"
    by (simp add: bits_def length_format_0_64)
  have bin: "set bits \<subseteq> {CHR ''0'', CHR ''1''}"
    by (simp add: bits_def format_0_binary)
  have "take 1 bits = [s]"
    using len by (cases bits) (simp_all add: s_def)
  moreover have "bits = take 1 bits @ take 11 (drop 1 bits) @ drop 11 (drop 1 bits)"
    by (simp only: append_take_drop_id)
  ultimately have parts: "bits = [s] @ e @ m"
    by (simp add: e_def m_def substr_def)
  have le: "length e = 11" and lm: "length m = 52"
    using len by (simp_all add: e_def m_def substr_def)
  have "set m \<subseteq> {CHR ''0'', CHR ''1''}"
    using bin set_drop_subset [of 12 bits] by (auto simp: m_def)
  then have "int_base 2 m < 2 ^ 52"
    using int_base_less [of m] lm by simp
  then have "int_base 2 m < 16 ^ 13" by simp
  then have lsig: "length sig = 13"
    unfolding sig_def by (intro length_format_0) simp_all
  have vsig: "int_base 16 sig = int_base 2 m"
    by (simp add: sig_def int_base_format_0)
  have "unat x = int_base 2 bits"
    by (simp add: bits_def int_base_format_0)
  also have "\<dots> = int_base 2 [s] * 2 ^ length (e @ m) + int_base 2 (e @ m)"
    by (subst parts) (rule int_base_append)
  also have "int_base 2 (e @ m) = int_base 2 e * 2 ^ length m + int_base 2 m"
    by (rule int_base_append)
  also have "int_base 2 [s] * 2 ^ length (e @ m) + (int_base 2 e * 2 ^ length m + int_base 2 m) =
      int_base 2 [s] * 2 ^ 63 + int_base 2 e * 2 ^ 52 + int_base 2 m"
    by (simp add: le lm)
  finally have n: "unat x = int_base 2 [s] * 2 ^ 63 + int_base 2 e * 2 ^ 52 + int_base 2 m" .
  have "double_to_smt x = ''(fp #b'' @ [s] @ '' #b'' @ e @ '' #x'' @ sig @ '')''"
    by (simp add: double_to_smt_def Let_def bits_def s_def e_def m_def sig_def)
  then have "smt_to_bits (double_to_smt x) =
      Some (push_bit 63 (of_nat (int_base 2 [s])) + push_bit 52 (of_nat (int_base 2 e))
            + of_nat (int_base 16 sig))"
    using smt_fields_literal [OF le lsig, of s] by (simp add: smt_to_bits_def)
  also have "\<dots> = Some (of_nat (unat x))"
    by (simp add: n vsig push_bit_eq_mult)
  finally show ?thesis by simp
qed

subsection \<open>The literals of particular doubles\<close>

lemma replicate_numeral: "replicate (numeral k) x = x # replicate (pred_numeral k) x"
  by (simp add: numeral_eq_Suc)

lemmas format_0_eval = format_0_def digits.simps digit_char_def replicate_numeral

lemma bits_one: "format_0 64 2 (unat (0x3FF0000000000000 :: 64 word)) =
    ''0011111111110000000000000000000000000000000000000000000000000000''"
  by (simp add: format_0_eval)

lemma bits_zero: "format_0 64 2 (unat (0 :: 64 word)) =
    ''0000000000000000000000000000000000000000000000000000000000000000''"
  by (simp add: format_0_eval)

lemma bits_minus_zero: "format_0 64 2 (unat (0x8000000000000000 :: 64 word)) =
    ''1000000000000000000000000000000000000000000000000000000000000000''"
  by (simp add: format_0_eval)

lemma double_to_smt_one:
  "double_to_smt 0x3FF0000000000000 = ''(fp #b0 #b01111111111 #x0000000000000)''"
  unfolding double_to_smt_def Let_def bits_one
  by (simp add: substr_def int_base_def digit_value_def format_0_eval)

lemma double_to_smt_zero:
  "double_to_smt 0 = ''(fp #b0 #b00000000000 #x0000000000000)''"
  unfolding double_to_smt_def Let_def bits_zero
  by (simp add: substr_def int_base_def digit_value_def format_0_eval)

lemma double_to_smt_minus_zero:
  "double_to_smt 0x8000000000000000 = ''(fp #b1 #b00000000000 #x0000000000000)''"
  unfolding double_to_smt_def Let_def bits_minus_zero
  by (simp add: substr_def int_base_def digit_value_def format_0_eval)

text \<open>
  Claim C4. For each of the ten test doubles (1.0, -1.0, 2.0, -2.0, +0.0, -0.0, +inf,
  -inf, the least positive subnormal and its negation, given by their binary64 bit
  patterns), taking the sign digit, the eleven exponent digits and the thirteen
  hexadecimal significand digits out of the literal and putting them together gives
  back the 64-bit pattern; and the literal of 1.0 is
  \<^verbatim>\<open>(fp #b0 #b01111111111 #x0000000000000)\<close>.
\<close>

theorem double_to_smt_roundtrip:
  "map (\<lambda>x. smt_to_bits (double_to_smt x)) nums_binary64 = map Some nums_binary64 \<and>
   length nums_binary64 = length nums \<and>
   double_to_smt 0x3FF0000000000000 = ''(fp #b0 #b01111111111 #x0000000000000)''"
  by (simp add: smt_to_bits_double_to_smt double_to_smt_one nums_binary64_def nums_def)

text \<open>
  Claim C9. The literals of +0.0 and -0.0 have the same exponent field (eleven zeros)
  and the same significand field (thirteen zeros); their sign digits are 0 and 1.
\<close>

theorem double_to_smt_signed_zero:
  "double_to_smt 0 = ''(fp #b0 #b00000000000 #x0000000000000)'' \<and>
   double_to_smt 0x8000000000000000 = ''(fp #b1 #b00000000000 #x0000000000000)'' \<and>
   smt_fields (double_to_smt 0) = Some (''0'', ''00000000000'', ''0000000000000'') \<and>
   smt_fields (double_to_smt 0x8000000000000000) = Some (''1'', ''00000000000'', ''0000000000000'')"
  by (simp add: double_to_smt_zero double_to_smt_minus_zero smt_fields_def substr_def)

lemma upt_10: "[0..<10] = [0, 1, 2, 3, 4, 5, 6, 7, 8, 9]"
  by (simp add: upt_rec)

text \<open>
  Claim C8. The fixture generator prints twenty lines: for \<open>i\<close> from 0 to 9 the
  directive that the \<open>i\<close>-th letter maps to the literal of the \<open>i\<close>-th double of the
  list, then for \<open>i\<close> from 0 to 9 the instruction that adds 0.0 and the text of the
  \<open>i\<close>-th double into the \<open>i\<close>-th letter. Both blocks pair letters and doubles in the
  order of the list.
\<close>

theorem gen_literal_test_pairs:
  "gen_literal_test float =
     map (\<lambda>i. ''; RUN: grep '' @ [CHR 0x27] @ [ascii_letters ! i] @ '' -> ''
                @ double_to_smt (float (nums ! i)) @ [CHR 0x27] @ '' %t2'') [0..<10]
     @ map (\<lambda>i. ''%'' @ [ascii_letters ! i] @ '' = fadd double 0.0, '' @ nums ! i) [0..<10] \<and>
   length nums = 10 \<and> take 10 ascii_letters = ''abcdefghij'' \<and>
   length (gen_literal_test float) = 20"
  by (simp add: gen_literal_test_def ascii_letters_def nums_def upt_10)

section \<open>Properties of the directive extractor\<close>

lemma main_extract_config_append:
  "\<forall>p\<in>set pre. ends_with_newline p \<Longrightarrow>
   main_extract_config (pre @ rest) =
     (concat (map (\<lambda>p. map (\<lambda>config_line. strip whitespace config_line @ [CHR 0x0A])
                          (config_re_findall p)) pre)
        @ fst (main_extract_config rest),
      snd (main_extract_config rest))"
  by (induction pre) simp_all

lemma extract_config_example:
  "extract_config ''a\<newline>// CONFIG: x=1\<newline>b\<newline>'' = ([''x=1\<newline>''], Exit 0)"
  by (simp add: extract_config_def ends_with_newline_def config_re_findall.simps strip_def
      whitespace_def)

text \<open>
  Claim C3 as stated does not hold: the payloads of the lines before the line without a
  terminator are written before the assertion fails. Here the first line carries a
  directive and the second, last line has no line feed.
\<close>

theorem extract_no_partial_output_counterexample:
  "\<not> ends_with_newline ''b'' \<and>
   main_extract_config [''// CONFIG: x=1\<newline>'', ''b''] = ([''x=1\<newline>''], Uncaught AssertionError) \<and>
   extract_config ''// CONFIG: x=1\<newline>b'' = ([''x=1\<newline>''], Uncaught AssertionError)"
  by (simp add: extract_config_def ends_with_newline_def config_re_findall.simps strip_def
      whitespace_def)

text \<open>
  Claim C3, amended. When some line does not end with a line feed, the extraction fails
  with an AssertionError (status 1) at the first such line, whatever the lines hold:
  nothing is written for that line or for any line after it, and what has been written
  is the payloads of the lines before it.
\<close>

theorem extract_fails_at_first_unterminated_line:
  assumes pre: "\<forall>p\<in>set pre. ends_with_newline p"
    and l: "\<not> ends_with_newline l"
  shows "main_extract_config (pre @ l # post) =
           (concat (map (\<lambda>p. map (\<lambda>config_line. strip whitespace config_line @ [CHR 0x0A])
                                (config_re_findall p)) pre),
            Uncaught AssertionError) \<and>
         exit_code (snd (main_extract_config (pre @ l # post))) = 1"
proof -
  have "main_extract_config (l # post) = ([], Uncaught AssertionError)"
    using l by simp
  then show ?thesis
    using main_extract_config_append [OF pre, of "l # post"] by simp
qed

theorem extract_fails_at_first_unterminated_line_witness:
  "main_extract_config ([''// CONFIG: x=1\<newline>'', ''a\<newline>''] @ ''// CONFIG: y=2'' # [''// CONFIG: z=3\<newline>'']) =
     ([''x=1\<newline>''], Uncaught AssertionError)"
proof -
  have pre: "\<forall>p\<in>set [''// CONFIG: x=1\<newline>'', ''a\<newline>'']. ends_with_newline p"
    by (simp add: ends_with_newline_def)
  have l: "\<not> ends_with_newline ''// CONFIG: y=2''"
    by (simp add: ends_with_newline_def)
  show ?thesis
    using extract_fails_at_first_unterminated_line [OF pre l, of "[''// CONFIG: z=3\<newline>'']"]
    by (simp add: config_re_findall.simps strip_def whitespace_def)
qed

section \<open>Properties of the migrator\<close>

lemma last_marker_ends_with_marker:
  "last_marker s = Some (g1, g2) \<Longrightarrow> \<exists>p. g1 = p @ ''CONFIG:'' \<and> s = g1 @ g2"
proof (induction s arbitrary: g1 g2)
  case Nil
  then show ?case by simp
next
  case (Cons c cs)
  show ?case
  proof (cases "last_marker cs")
    case None
    with Cons.prems have m: "startswith ''CONFIG:'' (c # cs)" and g: "g1 = ''CONFIG:''" "g2 = drop 6 cs"
      by (auto split: if_splits)
    from m have "c # cs = ''CONFIG:'' @ drop 6 cs"
      by (auto split: list.splits)
    with g show ?thesis by simp
  next
    case (Some a)
    obtain h1 h2 where a: "a = (h1, h2)" by (cases a)
    with Some Cons.prems have g: "g1 = c # h1" "g2 = h2" by auto
    from Cons.IH [of h1 h2] Some a obtain p where "h1 = p @ ''CONFIG:''" "cs = h1 @ h2" by auto
    with g have "g1 = (c # p) @ ''CONFIG:'' \<and> c # cs = g1 @ g2" by simp
    then show ?thesis by blast
  qed
qed

lemma config_re_match_ends_with_marker:
  "config_re_match line = Some (g1, g2) \<Longrightarrow> \<exists>p. g1 = p @ ''CONFIG:''"
  using last_marker_ends_with_marker
  by (fastforce simp: config_re_match_def Let_def split: if_splits)

lemma prefix_foldl_scan_line:
  "prefix (foldl scan_line st ls) =
     (if filter (\<lambda>l. config_re_match l \<noteq> None) ls = [] then prefix st
      else map_option fst (config_re_match (last (filter (\<lambda>l. config_re_match l \<noteq> None) ls))))"
proof (induction ls rule: rev_induct)
  case Nil
  then show ?case by simp
next
  case (snoc l ls)
  show ?case
  proof (cases "config_re_match l")
    case None
    with snoc show ?thesis by (simp add: scan_line_def)
  next
    case (Some a)
    then show ?thesis
      by (cases a) (simp add: scan_line_def)
  qed
qed

lemma prefix_scan_lines:
  "filter (\<lambda>l. config_re_match l \<noteq> None) ls = ms \<Longrightarrow> ms \<noteq> [] \<Longrightarrow>
   config_re_match (last ms) = Some (g1, g2) \<Longrightarrow> prefix (scan_lines ls) = Some g1"
  using prefix_foldl_scan_line
    [of "\<lparr>lines_pre = [], lines_post = [], yaml_src = [], prefix = None\<rparr>" ls]
  by (simp add: scan_lines_def)

lemma convert_old_config_example:
  "main_convert_old_config
     (\<lambda>src. if src = ''\<newline> {AbstractDomain: [Interval, Octagon], widening: 3}''
            then Some (Mapping [(Str ''AbstractDomain'', Seq [Str ''Interval'', Str ''Octagon'']),
                                (Str ''widening'', Scalar ''3'')])
            else None)
     (\<lambda>v. [])
     ''int x;\<newline>// CONFIG: {AbstractDomain: [Interval, Octagon], widening: 3}\<newline>int y;\<newline>'' =
     (''int x;\<newline>'' @
      ''// CONFIG: config.widening = 3\<newline>'' @
      ''// CONFIG: config.AbstractDomain = [globals()['' @ [CHR 0x27] @ ''Interval'' @ [CHR 0x27]
        @ ''], globals()['' @ [CHR 0x27] @ ''Octagon'' @ [CHR 0x27] @ '']]\<newline>'' @
      ''int y;\<newline>'', Exit 0)"
  by (simp add: main_convert_old_config_def scan_lines_def scan_line_def config_re_match_def
      getitem_def items_without_def iterate_def config_line_def domain_line_def str_def)

text \<open>
  Claim C1, amended. When the migration succeeds on a file with at least one matching
  line, every directive line it writes (one per remaining key, and the domain-list
  line) starts with the first group of the match on the last matching line: the text
  of that line up to and with its last \<^verbatim>\<open>CONFIG:\<close>. The file then holds the leading
  lines, these directive lines and the trailing lines.
\<close>

theorem convert_prefix_of_last_match:
  assumes ms: "filter (\<lambda>l. config_re_match l \<noteq> None) (readlines content) = ms" "ms \<noteq> []"
    and g: "config_re_match (last ms) = Some (g1, g2)"
    and st: "st = scan_lines (readlines content)"
    and load: "yaml_load (yaml_src st) = Some yaml_dict"
    and dom: "getitem yaml_dict ''AbstractDomain'' = Inr domains"
    and xs: "iterate domains = Some xs"
  shows "main_convert_old_config yaml_load repr content =
           (concat (lines_pre st)
            @ concat (map (\<lambda>(k, v). g1 @ '' config.'' @ str repr k @ '' = '' @ str repr v @ [CHR 0x0A])
                        (items_without yaml_dict ''AbstractDomain''))
            @ g1 @ '' config.AbstractDomain = [''
            @ join '', '' (map (\<lambda>x. ''globals()['' @ [CHR 0x27] @ str repr x @ [CHR 0x27] @ '']'') xs)
            @ '']'' @ [CHR 0x0A]
            @ concat (lines_post st),
            Exit 0) \<and>
         (\<exists>p. g1 = p @ ''CONFIG:'')"
proof -
  have p: "prefix st = Some g1"
    unfolding st using ms g by (rule prefix_scan_lines)
  have "config_line repr (Some g1) = (\<lambda>(k, v). g1 @ '' config.'' @ str repr k @ '' = '' @ str repr v @ [CHR 0x0A])"
    by (auto simp: config_line_def)
  then show ?thesis
    using load dom xs p config_re_match_ends_with_marker [OF g]
    by (simp add: main_convert_old_config_def Let_def domain_line_def flip: st)
qed

text \<open>
  Claim C1 as stated does not hold: with two matching lines that open differently, the
  lines written start with the text of the second one (marker included), not with what
  precedes the marker on the first. The loader returns, for the accumulated text, the
  mapping that text denotes.
\<close>

theorem convert_prefix_first_match_counterexample:
  "readlines ''// CONFIG: {AbstractDomain: [Interval],\<newline># CONFIG:  widening: 3}\<newline>'' =
     [''// CONFIG: {AbstractDomain: [Interval],\<newline>'', ''# CONFIG:  widening: 3}\<newline>''] \<and>
   config_re_match ''// CONFIG: {AbstractDomain: [Interval],\<newline>'' =
     Some (''// CONFIG:'', '' {AbstractDomain: [Interval],'') \<and>
   config_re_match ''# CONFIG:  widening: 3}\<newline>'' = Some (''# CONFIG:'', ''  widening: 3}'') \<and>
   main_convert_old_config
     (\<lambda>src. if src = ''\<newline> {AbstractDomain: [Interval],\<newline>  widening: 3}''
            then Some (Mapping [(Str ''AbstractDomain'', Seq [Str ''Interval'']),
                                (Str ''widening'', Scalar ''3'')])
            else None)
     (\<lambda>v. [])
     ''// CONFIG: {AbstractDomain: [Interval],\<newline># CONFIG:  widening: 3}\<newline>'' =
     (''# CONFIG: config.widening = 3\<newline>'' @
      ''# CONFIG: config.AbstractDomain = [globals()['' @ [CHR 0x27] @ ''Interval'' @ [CHR 0x27] @ '']]\<newline>'',
      Exit 0)"
  by (simp add: main_convert_old_config_def scan_lines_def scan_line_def config_re_match_def
      getitem_def items_without_def iterate_def config_line_def domain_line_def str_def)

theorem convert_prefix_of_last_match_witness:
  "main_convert_old_config
     (\<lambda>src. if src = ''\<newline> {AbstractDomain: [Interval],\<newline>  widening: 3}''
            then Some (Mapping [(Str ''AbstractDomain'', Seq [Str ''Interval'']),
                                (Str ''widening'', Scalar ''3'')])
            else None)
     (\<lambda>v. [])
     ''a\<newline>// CONFIG: {AbstractDomain: [Interval],\<newline>b\<newline># CONFIG:  widening: 3}\<newline>c\<newline>'' =
     (''a\<newline>'' @ ''# CONFIG: config.widening = 3\<newline>'' @
      ''# CONFIG: config.AbstractDomain = [globals()['' @ [CHR 0x27] @ ''Interval'' @ [CHR 0x27] @ '']]\<newline>'' @
      ''b\<newline>c\<newline>'',
      Exit 0)"
proof -
  let ?c = "''a\<newline>// CONFIG: {AbstractDomain: [Interval],\<newline>b\<newline># CONFIG:  widening: 3}\<newline>c\<newline>''"
  let ?load = "\<lambda>src. if src = ''\<newline> {AbstractDomain: [Interval],\<newline>  widening: 3}''
            then Some (Mapping [(Str ''AbstractDomain'', Seq [Str ''Interval'']),
                                (Str ''widening'', Scalar ''3'')])
            else None"
  let ?d = "Mapping [(Str ''AbstractDomain'', Seq [Str ''Interval'']), (Str ''widening'', Scalar ''3'')]"
  show ?thesis
    using convert_prefix_of_last_match
      [where content = ?c and yaml_load = ?load and repr = "\<lambda>v. []"
         and ms = "[''// CONFIG: {AbstractDomain: [Interval],\<newline>'', ''# CONFIG:  widening: 3}\<newline>'']"
         and ?g1.0 = "''# CONFIG:''" and ?g2.0 = "''  widening: 3}''"
         and st = "scan_lines (readlines ?c)" and yaml_dict = ?d
         and domains = "Seq [Str ''Interval'']" and xs = "[Str ''Interval'']"]
    by (simp add: scan_lines_def scan_line_def config_re_match_def getitem_def iterate_def
        items_without_def str_def)
qed

text \<open>
  Claim C2 as stated does not hold when the key is absent: the file has been opened for
  writing and the leading lines written before \<^verbatim>\<open>yaml_dict['AbstractDomain']\<close> raises,
  so the file is left holding the leading lines only.
\<close>

theorem convert_partial_write_counterexample:
  "scan_lines (readlines ''a\<newline>// CONFIG: {widening: 3}\<newline>b\<newline>'') =
     \<lparr>lines_pre = [''a\<newline>''], lines_post = [''b\<newline>''], yaml_src = ''\<newline> {widening: 3}'',
      prefix = Some ''// CONFIG:''\<rparr> \<and>
   map_of [(Str ''widening'', Scalar ''3'')] (Str ''AbstractDomain'') = None \<and>
   main_convert_old_config
     (\<lambda>src. if src = ''\<newline> {widening: 3}'' then Some (Mapping [(Str ''widening'', Scalar ''3'')])
            else None)
     (\<lambda>v. [])
     ''a\<newline>// CONFIG: {widening: 3}\<newline>b\<newline>'' = (''a\<newline>'', Uncaught KeyError) \<and>
   ''a\<newline>'' \<noteq> ''a\<newline>// CONFIG: {widening: 3}\<newline>b\<newline>''"
  by (simp add: main_convert_old_config_def scan_lines_def scan_line_def config_re_match_def
      getitem_def)

text \<open>
  Claim C2, amended. When the accumulated document cannot be parsed, the migration
  fails (status 1) and the file is left unchanged. When the document is a mapping
  without the key \<^verbatim>\<open>AbstractDomain\<close>, the migration fails with a KeyError (status 1).
\<close>

theorem convert_fails_on_bad_document:
  assumes st: "st = scan_lines (readlines content)"
  shows "(yaml_load (yaml_src st) = None \<longrightarrow>
            main_convert_old_config yaml_load repr content = (content, Uncaught YAMLError) \<and>
            exit_code (snd (main_convert_old_config yaml_load repr content)) = 1) \<and>
         (yaml_load (yaml_src st) = Some (Mapping kvs) \<and> map_of kvs (Str ''AbstractDomain'') = None \<longrightarrow>
            snd (main_convert_old_config yaml_load repr content) = Uncaught KeyError \<and>
            exit_code (snd (main_convert_old_config yaml_load repr content)) = 1)"
  by (simp add: main_convert_old_config_def Let_def getitem_def st)

theorem convert_fails_on_bad_document_witness:
  "main_convert_old_config (\<lambda>src. None) (\<lambda>v. []) ''a\<newline>// CONFIG: {widening: 3\<newline>b\<newline>'' =
     (''a\<newline>// CONFIG: {widening: 3\<newline>b\<newline>'', Uncaught YAMLError) \<and>
   snd (main_convert_old_config
          (\<lambda>src. if src = ''\<newline> {widening: 3}'' then Some (Mapping [(Str ''widening'', Scalar ''3'')])
                 else None)
          (\<lambda>v. [])
          ''a\<newline>// CONFIG: {widening: 3}\<newline>b\<newline>'') = Uncaught KeyError"
proof -
  have a: "main_convert_old_config (\<lambda>src. None) (\<lambda>v. []) ''a\<newline>// CONFIG: {widening: 3\<newline>b\<newline>'' =
     (''a\<newline>// CONFIG: {widening: 3\<newline>b\<newline>'', Uncaught YAMLError)"
    using convert_fails_on_bad_document
      [where yaml_load = "\<lambda>src. None" and content = "''a\<newline>// CONFIG: {widening: 3\<newline>b\<newline>''"
         and repr = "\<lambda>v. []", OF refl]
    by simp
  have b: "snd (main_convert_old_config
          (\<lambda>src. if src = ''\<newline> {widening: 3}'' then Some (Mapping [(Str ''widening'', Scalar ''3'')])
                 else None)
          (\<lambda>v. [])
          ''a\<newline>// CONFIG: {widening: 3}\<newline>b\<newline>'') = Uncaught KeyError"
    using convert_fails_on_bad_document
      [where yaml_load = "\<lambda>src. if src = ''\<newline> {widening: 3}''
                                 then Some (Mapping [(Str ''widening'', Scalar ''3'')]) else None"
         and content = "''a\<newline>// CONFIG: {widening: 3}\<newline>b\<newline>''"
         and kvs = "[(Str ''widening'', Scalar ''3'')]" and repr = "\<lambda>v. []", OF refl]
    by (simp add: scan_lines_def scan_line_def config_re_match_def)
  from a b show ?thesis by simp
qed

end
